theory Spec2Isabelle
  imports Main "HOL-Library.Word" "HOL-Library.Sublist"
begin

section \<open>JavaScript values\<close>

text \<open>
  A JavaScript string is a sequence of UTF-16 code units. Most literals of the source
  are Chinese text; they are given below by their code units. ASCII literals are
  written with \<open>ascii\<close>.
\<close>

type_synonym jsstring = "16 word list"

definition ascii :: "string \<Rightarrow> jsstring" where
  "ascii s = map of_char s"

text \<open>
  \<open>String.prototype.trim\<close> removes the code units of ECMAScript's WhiteSpace and
  LineTerminator productions from both ends of a string.
\<close>

definition js_whitespace :: "16 word \<Rightarrow> bool" where
  "js_whitespace c \<longleftrightarrow>
     c \<in> {0x9, 0xA, 0xB, 0xC, 0xD, 0x20, 0xA0, 0x1680, 0x2028, 0x2029, 0x202F, 0x205F,
          0x3000, 0xFEFF}
     \<or> (0x2000 \<le> c \<and> c \<le> 0x200A)"

definition trim :: "jsstring \<Rightarrow> jsstring" where
  "trim s = rev (dropWhile js_whitespace (rev (dropWhile js_whitespace s)))"

definition startsWith :: "jsstring \<Rightarrow> jsstring \<Rightarrow> bool" where
  "startsWith s p = prefix p s"

text \<open>
  The string of an integral number, as string concatenation and template literals
  produce it (decimal digits, a minus sign for negative values).
\<close>

fun digits :: "nat \<Rightarrow> jsstring" where
  "digits n = (if n < 10 then [of_nat (48 + n)] else digits (n div 10) @ [of_nat (48 + n mod 10)])"

definition number_string :: "int \<Rightarrow> jsstring" where
  "number_string i = (if i < 0 then 0x2D # digits (nat (- i)) else digits (nat i))"

text \<open>
  What a \<open>catch\<close> clause can receive: an \<open>Error\<close> object with its message, or any
  other thrown value (one for which \<open>error instanceof Error\<close> is false).
\<close>

datatype fault = Error jsstring | NonError

section \<open>The remote service\<close>

subsection \<open>Content generation (image editing)\<close>

record blob =
  mimeType :: jsstring
  data :: jsstring

record part =
  inlineData :: "blob option"
  part_text :: "jsstring option"

record content =
  parts :: "part list option"

record candidate =
  content :: "content option"

text \<open>\<open>response_text\<close> is the \<open>text\<close> accessor of the SDK's response object.\<close>

record generate_content_response =
  candidates :: "candidate list option"
  response_text :: "jsstring option"

datatype modality = IMAGE | TEXT

record generate_content_request =
  model :: jsstring
  request_inlineData :: blob
  request_text :: jsstring
  responseModalities :: "modality list"

text \<open>
  The remote model is not deterministic: the same request can be answered differently
  by each call. For a service \<open>remote\<close>, \<open>remote i req\<close> is what the call number \<open>i\<close> from
  now on (counting from 0) does when it is given \<open>req\<close>: it throws (\<open>Inl\<close>) or returns a
  response (\<open>Inr\<close>). After one call the service that remains is \<open>remote \<circ> Suc\<close>.
\<close>

type_synonym content_api =
  "nat \<Rightarrow> generate_content_request \<Rightarrow> fault + generate_content_response"

subsection \<open>Image generation\<close>

record image =
  imageBytes :: jsstring
  image_mimeType :: jsstring

record generated_image =
  generated :: image

record generate_images_response =
  generatedImages :: "generated_image list option"

record generate_images_request =
  images_model :: jsstring
  images_prompt :: jsstring
  numberOfImages :: nat
  outputMimeType :: jsstring
  aspectRatio :: jsstring

type_synonym images_api = "generate_images_request \<Rightarrow> fault + generate_images_response"

subsection \<open>Video generation\<close>

record video =
  uri :: "jsstring option"

record generated_video =
  video :: "video option"

record generate_videos_response =
  generatedVideos :: "generated_video list option"

text \<open>
  The job handle. \<open>is_done\<close> is the truth value of the handle's \<open>done\<close> property.
\<close>

record operation =
  name :: jsstring
  is_done :: bool
  response :: "generate_videos_response option"

record generate_videos_request =
  videos_model :: jsstring
  videos_prompt :: jsstring
  seed_image :: "image option"
  numberOfVideos :: nat

type_synonym binary = "8 word list"

record http_response =
  ok :: bool
  statusText :: jsstring
  read_blob :: "fault + binary"

text \<open>
  Everything \<open>generateVideo\<close> talks to: the submission, the status query (indexed like
  \<open>content_api\<close>, since each poll may answer differently), the credential of the process,
  \<open>fetch\<close> and \<open>URL.createObjectURL\<close>.
\<close>

record video_env =
  generateVideos :: "generate_videos_request \<Rightarrow> fault + operation"
  getVideosOperation :: "nat \<Rightarrow> operation \<Rightarrow> fault + operation"
  API_KEY :: "jsstring option"
  fetch :: "jsstring \<Rightarrow> fault + http_response"
  createObjectURL :: "binary \<Rightarrow> jsstring"

subsection \<open>Observable effects\<close>

datatype warning =
    TextReturned nat jsstring
  | NoImageReturned nat

datatype event =
    GenerateContent generate_content_request
  | GenerateImages generate_images_request
  | GenerateVideos generate_videos_request
  | GetVideosOperation operation
  | Fetch jsstring
  | CreateObjectURL binary
  | OnProgress jsstring
  | ConsoleWarn warning
  | ConsoleError fault
  | SetTimeout nat

text \<open>What a trace says about each kind of effect, in order.\<close>

fun content_calls :: "event list \<Rightarrow> generate_content_request list" where
  "content_calls [] = []"
| "content_calls (GenerateContent r # es) = r # content_calls es"
| "content_calls (_ # es) = content_calls es"

fun image_calls :: "event list \<Rightarrow> generate_images_request list" where
  "image_calls [] = []"
| "image_calls (GenerateImages r # es) = r # image_calls es"
| "image_calls (_ # es) = image_calls es"

fun submissions :: "event list \<Rightarrow> generate_videos_request list" where
  "submissions [] = []"
| "submissions (GenerateVideos r # es) = r # submissions es"
| "submissions (_ # es) = submissions es"

fun polls :: "event list \<Rightarrow> operation list" where
  "polls [] = []"
| "polls (GetVideosOperation h # es) = h # polls es"
| "polls (_ # es) = polls es"

fun retrievals :: "event list \<Rightarrow> jsstring list" where
  "retrievals [] = []"
| "retrievals (Fetch u # es) = u # retrievals es"
| "retrievals (_ # es) = retrievals es"

fun progress :: "event list \<Rightarrow> jsstring list" where
  "progress [] = []"
| "progress (OnProgress m # es) = m # progress es"
| "progress (_ # es) = progress es"

fun delays :: "event list \<Rightarrow> nat list" where
  "delays [] = []"
| "delays (SetTimeout d # es) = d # delays es"
| "delays (_ # es) = delays es"

section \<open>Loops that may run forever\<close>

text \<open>
  A loop body maps the loop's variables either to their values for the next iteration
  (\<open>Inl\<close>) or to what leaves the loop (\<open>Inr\<close>). \<open>js_while\<close> runs the body until it
  leaves; a loop that never leaves has the value \<open>None\<close>. \<open>js_iterate n\<close> runs at most
  \<open>n\<close> iterations and shows where the loop is then.
\<close>

partial_function (option) js_while :: "('s \<Rightarrow> 's + 'r) \<Rightarrow> 's \<Rightarrow> 'r option" where
  "js_while body s = (case body s of Inl s' \<Rightarrow> js_while body s' | Inr r \<Rightarrow> Some r)"

declare js_while.simps [code]

fun js_iterate :: "nat \<Rightarrow> ('s \<Rightarrow> 's + 'r) \<Rightarrow> 's \<Rightarrow> 's + 'r" where
  "js_iterate 0 body s = Inl s"
| "js_iterate (Suc n) body s =
     (case body s of Inl s' \<Rightarrow> js_iterate n body s' | Inr r \<Rightarrow> Inr r)"

section \<open>editImage\<close>

definition RETRY_DELAY :: nat where
  "RETRY_DELAY = 1000"

text \<open>
  \<open>response.candidates?.[0]?.content?.parts?.find(part =>
     part.inlineData?.mimeType.startsWith('image/'))\<close>
\<close>

definition is_image_part :: "part \<Rightarrow> bool" where
  "is_image_part p =
     (case inlineData p of None \<Rightarrow> False
      | Some b \<Rightarrow> startsWith (mimeType b) (ascii ''image/''))"

definition imagePart :: "generate_content_response \<Rightarrow> part option" where
  "imagePart r =
     (case candidates r of None \<Rightarrow> None
      | Some [] \<Rightarrow> None
      | Some (c # _) \<Rightarrow>
          (case content c of None \<Rightarrow> None
           | Some ct \<Rightarrow>
               (case parts ct of None \<Rightarrow> None
                | Some ps \<Rightarrow> find is_image_part ps)))"


definition edit_request :: "jsstring \<Rightarrow> jsstring \<Rightarrow> jsstring \<Rightarrow> generate_content_request" where
  "edit_request base64ImageData mime prompt =
     \<lparr>model = ascii ''gemini-2.5-flash-image'',
      request_inlineData = \<lparr>mimeType = mime, data = base64ImageData\<rparr>,
      request_text = prompt,
      responseModalities = [IMAGE, TEXT]\<rparr>"

text \<open>
  The diagnostic of an unsuccessful attempt: \<open>response.text?.trim() || ''\<close> decides
  between the two messages; both carry the attempt number.
\<close>

definition retry_warning :: "nat \<Rightarrow> generate_content_response \<Rightarrow> warning" where
  "retry_warning n r =
     (let lastTextResponse = (case response_text r of None \<Rightarrow> [] | Some t \<Rightarrow> trim t)
      in if lastTextResponse \<noteq> [] then TextReturned n lastTextResponse
         else NoImageReturned n)"

record edit_loop =
  api :: content_api
  attempt :: nat
  trace :: "event list"

text \<open>
  One iteration of the \<open>while (true)\<close> loop of \<open>editImage\<close>. The loop is left with the
  events so far and either the fault that the remote call threw or the data of the
  image part.
\<close>

definition editImage_attempt ::
  "generate_content_request \<Rightarrow> edit_loop \<Rightarrow> edit_loop + (event list \<times> (fault + jsstring))" where
  "editImage_attempt req s =
     (let called = trace s @ [GenerateContent req] in
      case api s 0 req of
        Inl e \<Rightarrow> Inr (called, Inl e)
      | Inr r \<Rightarrow>
          (case Option.bind (imagePart r) inlineData of
             Some b \<Rightarrow> Inr (called, Inr (data b))
           | None \<Rightarrow>
               Inl \<lparr>api = api s \<circ> Suc, attempt = attempt s + 1,
                    trace = called @ [ConsoleWarn (retry_warning (attempt s) r),
                                      SetTimeout RETRY_DELAY]\<rparr>))"

text \<open>The \<open>catch\<close> clause of \<open>editImage\<close> throws one translated \<open>Error\<close>.\<close>

definition edit_failed_prefix :: jsstring where
  "edit_failed_prefix = [0x7DE8, 0x8F2F, 0x5716, 0x7247, 0x5931, 0x6557, 0xFF1A, 0x20]"

definition edit_unknown_error :: jsstring where
  "edit_unknown_error =
     [0x7DE8, 0x8F2F, 0x5716, 0x7247, 0x6642, 0x767C, 0x751F, 0x672A, 0x77E5, 0x7684, 0x932F,
      0x8AA4, 0x3002]"

definition edit_catch :: "fault \<Rightarrow> fault" where
  "edit_catch e =
     (case e of Error message \<Rightarrow> Error (edit_failed_prefix @ message)
      | NonError \<Rightarrow> Error edit_unknown_error)"

definition edit_start :: "content_api \<Rightarrow> edit_loop" where
  "edit_start remote = \<lparr>api = remote, attempt = 1, trace = []\<rparr>"

definition editImage ::
  "content_api \<Rightarrow> jsstring \<Rightarrow> jsstring \<Rightarrow> jsstring \<Rightarrow> (event list \<times> (fault + jsstring)) option" where
  "editImage remote base64ImageData mime prompt =
     (case js_while (editImage_attempt (edit_request base64ImageData mime prompt))
             (edit_start remote) of
        None \<Rightarrow> None
      | Some (tr, Inr d) \<Rightarrow> Some (tr, Inr d)
      | Some (tr, Inl e) \<Rightarrow> Some (tr @ [ConsoleError e], Inl (edit_catch e)))"

section \<open>outpaintImage and upscaleImage\<close>

definition outpaint_default_prompt :: jsstring where
  "outpaint_default_prompt =
     [0x8ACB, 0x64F4, 0x5C55, 0x9019, 0x5F35, 0x5716, 0x7247, 0x7684, 0x756B, 0x5E03, 0xFF0C,
      0x4EE5, 0x7B26, 0x5408, 0x908F, 0x8F2F, 0x4E14, 0x7121, 0x7E2B, 0x7684, 0x65B9, 0x5F0F,
      0xFF0C, 0x7528, 0x5EF6, 0x4F38, 0x539F, 0x59CB, 0x5834, 0x666F, 0x7684, 0x5167, 0x5BB9,
      0x586B, 0x6EFF, 0x65B0, 0x7684, 0x5340, 0x57DF, 0x3002, 0x4FDD, 0x6301, 0x539F, 0x59CB,
      0x5716, 0x7247, 0x7684, 0x98A8, 0x683C, 0x8207, 0x756B, 0x8CEA, 0x3002]"

definition outpaintImage ::
  "content_api \<Rightarrow> jsstring \<Rightarrow> jsstring \<Rightarrow> jsstring option \<Rightarrow>
     (event list \<times> (fault + jsstring)) option" where
  "outpaintImage remote base64ImageData mime prompt =
     (let finalPrompt =
            (case prompt of None \<Rightarrow> outpaint_default_prompt
             | Some p \<Rightarrow> if p \<noteq> [] \<and> trim p \<noteq> [] then p else outpaint_default_prompt)
      in editImage remote base64ImageData mime finalPrompt)"

definition upscale_prompt :: jsstring where
  "upscale_prompt =
     [0x8ACB, 0x5C07, 0x9019, 0x5F35, 0x5716, 0x7247, 0x7684, 0x89E3, 0x6790, 0x5EA6, 0x63D0,
      0x5347, 0x81F3, 0x66F4, 0x9AD8, 0x54C1, 0x8CEA, 0x3002, 0x92B3, 0x5316, 0x7D30, 0x7BC0,
      0x3001, 0x6E1B, 0x5C11, 0x58D3, 0x7E2E, 0x75D5, 0x8DE1, 0x8207, 0x566A, 0x9EDE, 0xFF0C,
      0x4E26, 0x589E, 0x52A0, 0x6574, 0x9AD4, 0x6E05, 0x6670, 0x5EA6, 0xFF0C, 0x540C, 0x6642,
      0x4FDD, 0x6301, 0x539F, 0x59CB, 0x5716, 0x50CF, 0x7684, 0x771F, 0x5BE6, 0x6027, 0x3002,
      0x8B93, 0x5B83, 0x770B, 0x8D77, 0x4F86, 0x66F4, 0x6E05, 0x6670, 0x3001, 0x66F4, 0x7D30,
      0x81A9, 0x3002]"

definition upscaleImage ::
  "content_api \<Rightarrow> jsstring \<Rightarrow> jsstring \<Rightarrow> (event list \<times> (fault + jsstring)) option" where
  "upscaleImage remote base64ImageData mime =
     editImage remote base64ImageData mime upscale_prompt"

section \<open>generateImage\<close>

definition no_images_message :: jsstring where
  "no_images_message =
     [0x41, 0x50, 0x49, 0x20, 0x672A, 0x8FD4, 0x56DE, 0x4EFB, 0x4F55, 0x5716, 0x7247, 0x3002]"

definition image_failed_prefix :: jsstring where
  "image_failed_prefix =
     [0x5716, 0x7247, 0x751F, 0x6210, 0x5931, 0x6557, 0xFF1A, 0x20]"

definition image_unknown_error :: jsstring where
  "image_unknown_error =
     [0x751F, 0x6210, 0x5716, 0x7247, 0x6642, 0x767C, 0x751F, 0x672A, 0x77E5, 0x7684, 0x932F,
      0x8AA4, 0x3002]"

definition image_catch :: "fault \<Rightarrow> fault" where
  "image_catch e =
     (case e of Error message \<Rightarrow> Error (image_failed_prefix @ message)
      | NonError \<Rightarrow> Error image_unknown_error)"

definition images_request :: "jsstring \<Rightarrow> generate_images_request" where
  "images_request prompt =
     \<lparr>images_model = ascii ''imagen-4.0-generate-001'',
      images_prompt = prompt,
      numberOfImages = 1,
      outputMimeType = ascii ''image/jpeg'',
      aspectRatio = ascii ''1:1''\<rparr>"

text \<open>The body of the \<open>try\<close> block of \<open>generateImage\<close>.\<close>

definition generateImage_try :: "images_api \<Rightarrow> jsstring \<Rightarrow> event list \<times> (fault + jsstring)" where
  "generateImage_try remote prompt =
     (let req = images_request prompt in
      case remote req of
        Inl e \<Rightarrow> ([GenerateImages req], Inl e)
      | Inr r \<Rightarrow>
          (case generatedImages r of
             Some (g # _) \<Rightarrow> ([GenerateImages req], Inr (imageBytes (generated g)))
           | _ \<Rightarrow> ([GenerateImages req], Inl (Error no_images_message))))"

definition generateImage :: "images_api \<Rightarrow> jsstring \<Rightarrow> event list \<times> (fault + jsstring)" where
  "generateImage remote prompt =
     (case generateImage_try remote prompt of
        (tr, Inr bytes) \<Rightarrow> (tr, Inr bytes)
      | (tr, Inl e) \<Rightarrow> (tr @ [ConsoleError e], Inl (image_catch e)))"

section \<open>generateVideo\<close>

definition POLLING_INTERVAL :: nat where
  "POLLING_INTERVAL = 10000"

definition initializing_message :: jsstring where
  "initializing_message =
     [0x6B63, 0x5728, 0x521D, 0x59CB, 0x5316, 0x5F71, 0x7247, 0x751F, 0x6210, 0x2E, 0x2E,
      0x2E]"

definition messages :: "jsstring list" where
  "messages =
    [[0x6B63, 0x5728, 0x8A2D, 0x5B9A, 0x5834, 0x666F, 0x2E, 0x2E, 0x2E],
     [0x41, 0x49, 0x20, 0x6B63, 0x5728, 0x767C, 0x63EE, 0x5275, 0x610F, 0x2E, 0x2E, 0x2E],
     [0x6B63, 0x5728, 0x6E32, 0x67D3, 0x6BCF, 0x4E00, 0x5E40, 0x2E, 0x2E, 0x2E],
     [0x5FEB, 0x597D, 0x4E86, 0xFF0C, 0x6B63, 0x5728, 0x9032, 0x884C, 0x6700, 0x5F8C,
      0x7684, 0x6F64, 0x98FE, 0x2E, 0x2E, 0x2E],
     [0x6B63, 0x5728, 0x70BA, 0x60A8, 0x7684, 0x5F71, 0x7247, 0x6CE8, 0x5165, 0x9B54,
      0x6CD5, 0x2E, 0x2E, 0x2E]]"

definition no_link_message :: jsstring where
  "no_link_message =
     [0x5F71, 0x7247, 0x751F, 0x6210, 0x5931, 0x6557, 0xFF0C, 0x672A, 0x6536, 0x5230,
      0x4E0B, 0x8F09, 0x9023, 0x7D50, 0x3002]"

definition fetching_message :: jsstring where
  "fetching_message =
     [0x6B63, 0x5728, 0x7372, 0x53D6, 0x5F71, 0x7247, 0x2E, 0x2E, 0x2E]"

definition download_failed_prefix :: jsstring where
  "download_failed_prefix =
     [0x7121, 0x6CD5, 0x4E0B, 0x8F09, 0x5F71, 0x7247, 0xFF1A, 0x20]"

definition video_failed_prefix :: jsstring where
  "video_failed_prefix =
     [0x5F71, 0x7247, 0x751F, 0x6210, 0x5931, 0x6557, 0xFF1A, 0x20]"

definition video_unknown_error :: jsstring where
  "video_unknown_error =
     [0x751F, 0x6210, 0x5F71, 0x7247, 0x6642, 0x767C, 0x751F, 0x672A, 0x77E5, 0x7684,
      0x932F, 0x8AA4, 0x3002]"

definition video_catch :: "fault \<Rightarrow> fault" where
  "video_catch e =
     (case e of Error message \<Rightarrow> Error (video_failed_prefix @ message)
      | NonError \<Rightarrow> Error video_unknown_error)"

text \<open>
  \<open>base64ImageData && mimeType ? { imageBytes: base64ImageData, mimeType: mimeType }
     : undefined\<close>: \<open>null\<close> and the empty string are both falsy.
\<close>

definition videos_request ::
  "jsstring \<Rightarrow> jsstring option \<Rightarrow> jsstring option \<Rightarrow> generate_videos_request" where
  "videos_request prompt base64ImageData mime =
     \<lparr>videos_model = ascii ''veo-2.0-generate-001'',
      videos_prompt = prompt,
      seed_image =
        (case (base64ImageData, mime) of
           (Some b, Some m) \<Rightarrow>
             if b \<noteq> [] \<and> m \<noteq> [] then Some \<lparr>imageBytes = b, image_mimeType = m\<rparr> else None
         | _ \<Rightarrow> None),
      numberOfVideos = 1\<rparr>"

text \<open>
  The progress callback is a procedure of the caller with a state \<open>'p\<close> of its own: given
  a message it returns, changing that state, or throws.
\<close>

type_synonym 'p sink = "jsstring \<Rightarrow> 'p \<Rightarrow> fault + 'p"

record 'p poll_loop =
  status_api :: "nat \<Rightarrow> operation \<Rightarrow> fault + operation"
  current :: operation
  messageIndex :: nat
  sink_state :: 'p
  events :: "event list"

text \<open>
  One round of \<open>while (!operation.done)\<close>: the test, then the body. The loop is left
  either by the test (no fault) or by a fault of the callback or of the status query.
\<close>

definition generateVideo_poll ::
  "'p sink \<Rightarrow> 'p poll_loop \<Rightarrow> 'p poll_loop + (fault option \<times> 'p poll_loop)" where
  "generateVideo_poll onProgress s =
     (if is_done (current s) then Inr (None, s)
      else
        let m = messages ! (messageIndex s mod length messages);
            s1 = s\<lparr>events := events s @ [OnProgress m]\<rparr> in
        case onProgress m (sink_state s) of
          Inl e \<Rightarrow> Inr (Some e, s1)
        | Inr p \<Rightarrow>
            let s2 = s1\<lparr>sink_state := p, messageIndex := messageIndex s + 1,
                        events := events s1 @ [SetTimeout POLLING_INTERVAL,
                                               GetVideosOperation (current s)]\<rparr> in
            (case status_api s 0 (current s) of
               Inl e \<Rightarrow> Inr (Some e, s2)
             | Inr h \<Rightarrow> Inl (s2\<lparr>current := h, status_api := status_api s \<circ> Suc\<rparr>)))"

text \<open>\<open>operation.response?.generatedVideos?.[0]?.video?.uri\<close>\<close>

definition downloadLink :: "operation \<Rightarrow> jsstring option" where
  "downloadLink h =
     (case response h of None \<Rightarrow> None
      | Some r \<Rightarrow>
          (case generatedVideos r of None \<Rightarrow> None
           | Some [] \<Rightarrow> None
           | Some (g # _) \<Rightarrow>
               (case video g of None \<Rightarrow> None
                | Some v \<Rightarrow> uri v)))"

text \<open>
  \<open>`${downloadLink}&key=${process.env.API_KEY}`\<close>: a credential that is not set is
  rendered as \<open>undefined\<close>.
\<close>

definition videoUrl :: "video_env \<Rightarrow> jsstring \<Rightarrow> jsstring" where
  "videoUrl env link =
     link @ ascii ''&key='' @ (case API_KEY env of None \<Rightarrow> ascii ''undefined'' | Some k \<Rightarrow> k)"

text \<open>
  The rest of the \<open>try\<close> block, after the loop: the result locator is checked
  (\<open>undefined\<close> and the empty string are falsy), then the video is fetched with the
  credential appended.
\<close>

definition generateVideo_retrieve ::
  "video_env \<Rightarrow> 'p sink \<Rightarrow> 'p poll_loop \<Rightarrow> event list \<times> 'p \<times> (fault + jsstring)" where
  "generateVideo_retrieve env onProgress s =
     (case downloadLink (current s) of
        None \<Rightarrow> (events s, sink_state s, Inl (Error no_link_message))
      | Some link \<Rightarrow>
          if link = [] then (events s, sink_state s, Inl (Error no_link_message))
          else
            (case onProgress fetching_message (sink_state s) of
               Inl e \<Rightarrow> (events s @ [OnProgress fetching_message], sink_state s, Inl e)
             | Inr p \<Rightarrow>
                 let tr = events s @ [OnProgress fetching_message, Fetch (videoUrl env link)] in
                 (case fetch env (videoUrl env link) of
                    Inl e \<Rightarrow> (tr, p, Inl e)
                  | Inr r \<Rightarrow>
                      if \<not> ok r then (tr, p, Inl (Error (download_failed_prefix @ statusText r)))
                      else
                        (case read_blob r of
                           Inl e \<Rightarrow> (tr, p, Inl e)
                         | Inr videoBlob \<Rightarrow>
                             (tr @ [CreateObjectURL videoBlob], p,
                              Inr (createObjectURL env videoBlob))))))"

text \<open>
  The start of the \<open>try\<close> block of \<open>generateVideo\<close>: the first progress message and
  the submission. It gives the loop its first handle, or fails.
\<close>

definition generateVideo_submit ::
  "video_env \<Rightarrow> 'p sink \<Rightarrow> 'p \<Rightarrow> jsstring \<Rightarrow> jsstring option \<Rightarrow> jsstring option \<Rightarrow>
     (event list \<times> 'p \<times> fault) + 'p poll_loop" where
  "generateVideo_submit env onProgress p0 prompt base64ImageData mime =
     (case onProgress initializing_message p0 of
        Inl e \<Rightarrow> Inl ([OnProgress initializing_message], p0, e)
      | Inr p1 \<Rightarrow>
          let req = videos_request prompt base64ImageData mime;
              tr = [OnProgress initializing_message, GenerateVideos req] in
          (case generateVideos env req of
             Inl e \<Rightarrow> Inl (tr, p1, e)
           | Inr h \<Rightarrow>
               Inr \<lparr>status_api = getVideosOperation env, current = h, messageIndex = 0,
                    sink_state = p1, events = tr\<rparr>))"

text \<open>The \<open>try\<close> block of \<open>generateVideo\<close>; \<open>None\<close> when the polling never ends.\<close>

definition generateVideo_try ::
  "video_env \<Rightarrow> 'p sink \<Rightarrow> 'p \<Rightarrow> jsstring \<Rightarrow> jsstring option \<Rightarrow> jsstring option \<Rightarrow>
     (event list \<times> 'p \<times> (fault + jsstring)) option" where
  "generateVideo_try env onProgress p0 prompt base64ImageData mime =
     (case generateVideo_submit env onProgress p0 prompt base64ImageData mime of
        Inl (tr, p, e) \<Rightarrow> Some (tr, p, Inl e)
      | Inr s0 \<Rightarrow>
          (case js_while (generateVideo_poll onProgress) s0 of
             None \<Rightarrow> None
           | Some (Some e, s) \<Rightarrow> Some (events s, sink_state s, Inl e)
           | Some (None, s) \<Rightarrow> Some (generateVideo_retrieve env onProgress s)))"

definition generateVideo ::
  "video_env \<Rightarrow> 'p sink \<Rightarrow> 'p \<Rightarrow> jsstring \<Rightarrow> jsstring option \<Rightarrow> jsstring option \<Rightarrow>
     (event list \<times> 'p \<times> (fault + jsstring)) option" where
  "generateVideo env onProgress p0 prompt base64ImageData mime =
     (case generateVideo_try env onProgress p0 prompt base64ImageData mime of
        None \<Rightarrow> None
      | Some (tr, p, Inr url) \<Rightarrow> Some (tr, p, Inr url)
      | Some (tr, p, Inl e) \<Rightarrow> Some (tr @ [ConsoleError e], p, Inl (video_catch e)))"

text \<open>
  A progress callback that always returns: it only changes the state of the caller.
  \<open>outcome\<close> is what a run of \<open>generateVideo\<close> shows apart from that state.
\<close>

definition returning :: "(jsstring \<Rightarrow> 'p \<Rightarrow> 'p) \<Rightarrow> 'p sink" where
  "returning f msg p = Inr (f msg p)"

definition outcome :: "event list \<times> 'p \<times> (fault + jsstring) \<Rightarrow> event list \<times> (fault + jsstring)" where
  "outcome run = (fst run, snd (snd run))"

text \<open>
  Two runs of the polling loop that differ in the state of the callback only.
\<close>

definition same_view :: "'p poll_loop \<Rightarrow> 'q poll_loop \<Rightarrow> bool" where
  "same_view s t \<longleftrightarrow>
     status_api s = status_api t \<and> current s = current t
     \<and> messageIndex s = messageIndex t \<and> events s = events t"

text \<open>The callback has been given the progress messages of the trace, in order.\<close>

definition fed :: "(jsstring \<Rightarrow> 'p \<Rightarrow> 'p) \<Rightarrow> 'p \<Rightarrow> 'p poll_loop \<Rightarrow> bool" where
  "fed f p0 s \<longleftrightarrow> sink_state s = fold f (progress (events s)) p0"

section \<open>The edit handler of the application\<close>

record js_file =
  file_name :: jsstring
  lastModified :: int
  file_type :: jsstring

text \<open>
  \<open>editedImages\<close> is a \<open>Record<string, string | null>\<close>: a key is absent, or present
  with \<open>null\<close> (\<open>Some None\<close>) or with a string.
\<close>

record edit_state =
  prompt :: jsstring
  originalFiles :: "js_file list"
  editedImages :: "jsstring \<rightharpoonup> jsstring option"
  selectedFileIndex :: "nat option"
  outputName :: jsstring
  isOutpaint :: bool

record app_state =
  isLoading :: bool
  error :: "jsstring option"
  editState :: edit_state

definition select_image_first :: jsstring where
  "select_image_first =
     [0x8ACB, 0x5148, 0x4E0A, 0x50B3, 0x4E26, 0x9078, 0x64C7, 0x4E00, 0x5F35, 0x5716,
      0x7247, 0x3002]"

definition enter_edit_prompt :: jsstring where
  "enter_edit_prompt =
     [0x8ACB, 0x8F38, 0x5165, 0x7DE8, 0x8F2F, 0x63D0, 0x793A, 0x3002]"

definition unknown_error :: jsstring where
  "unknown_error =
     [0x767C, 0x751F, 0x672A, 0x77E5, 0x7684, 0x932F, 0x8AA4, 0x3002]"

definition selectedOriginalFile :: "edit_state \<Rightarrow> js_file option" where
  "selectedOriginalFile es =
     (case selectedFileIndex es of None \<Rightarrow> None
      | Some i \<Rightarrow> if i < length (originalFiles es) then Some (originalFiles es ! i) else None)"

definition fileKey :: "js_file \<Rightarrow> jsstring" where
  "fileKey f = file_name f @ number_string (lastModified f)"

text \<open>The two functional updates that \<open>handleEdit\<close> hands to \<open>setEditState\<close>.\<close>

definition set_edited :: "jsstring \<Rightarrow> jsstring option \<Rightarrow> edit_state \<Rightarrow> edit_state" where
  "set_edited k v prev = prev\<lparr>editedImages := (editedImages prev)(k \<mapsto> v)\<rparr>"

text \<open>The state in which \<open>handleEdit\<close> enters its \<open>try\<close> block for the file \<open>f\<close>.\<close>

definition handleEdit_started :: "app_state \<Rightarrow> js_file \<Rightarrow> app_state" where
  "handleEdit_started s f =
     s\<lparr>isLoading := True, error := None,
       editState := set_edited (fileKey f) None (editState s)\<rparr>"

text \<open>
  The \<open>try\<close> block up to the result: \<open>fileToBase64\<close>, then the service call.
  \<open>fileToBase64\<close> wraps the file reader of the browser: its promise resolves to the
  base64 payload of the data URL that the reader produced, or rejects with the error of
  the reader. What the reader does is not the program's, so the function is a parameter.
\<close>

definition handleEdit_call ::
  "(js_file \<Rightarrow> fault + jsstring) \<Rightarrow> content_api \<Rightarrow> app_state \<Rightarrow> js_file \<Rightarrow> (fault + jsstring) option" where
  "handleEdit_call fileToBase64 remote s f =
     (case fileToBase64 f of
        Inl e \<Rightarrow> Some (Inl e)
      | Inr base64Data \<Rightarrow>
          map_option snd
            (if isOutpaint (editState s)
             then outpaintImage remote base64Data (file_type f) (Some (prompt (editState s)))
             else editImage remote base64Data (file_type f) (prompt (editState s))))"

definition handleEdit ::
  "(js_file \<Rightarrow> fault + jsstring) \<Rightarrow> content_api \<Rightarrow> app_state \<Rightarrow> app_state option" where
  "handleEdit fileToBase64 remote s =
     (case selectedOriginalFile (editState s) of
        None \<Rightarrow> Some (s\<lparr>error := Some select_image_first\<rparr>)
      | Some f \<Rightarrow>
          if \<not> isOutpaint (editState s) \<and> trim (prompt (editState s)) = []
          then Some (s\<lparr>error := Some enter_edit_prompt\<rparr>)
          else
            let s1 = handleEdit_started s f in
            (case handleEdit_call fileToBase64 remote s f of
               None \<Rightarrow> None
             | Some (Inr result) \<Rightarrow>
                 Some (s1\<lparr>editState := set_edited (fileKey f) (Some result) (editState s1),
                          isLoading := False\<rparr>)
             | Some (Inl e) \<Rightarrow>
                 Some (s1\<lparr>error := Some (case e of Error message \<Rightarrow> message
                                          | NonError \<Rightarrow> unknown_error),
                          isLoading := False\<rparr>)))"

section \<open>Scenarios\<close>

definition text_only_part :: part where
  "text_only_part = \<lparr>inlineData = None, part_text = Some (ascii ''I cannot edit this.'')\<rparr>"

definition png_part :: part where
  "png_part = \<lparr>inlineData = Some \<lparr>mimeType = ascii ''image/png'', data = ascii ''iVBORw0KGgo=''\<rparr>,
               part_text = None\<rparr>"

definition text_response :: generate_content_response where
  "text_response =
     \<lparr>candidates = Some [\<lparr>content = Some \<lparr>parts = Some [text_only_part]\<rparr>\<rparr>],
      response_text = Some (ascii ''I cannot edit this.'')\<rparr>"

definition image_response :: generate_content_response where
  "image_response =
     \<lparr>candidates = Some [\<lparr>content = Some \<lparr>parts = Some [text_only_part, png_part]\<rparr>\<rparr>],
      response_text = Some (ascii ''I cannot edit this.'')\<rparr>"

definition text_then_image :: content_api where
  "text_then_image i req = (if i = 0 then Inr text_response else Inr image_response)"

definition always_text :: content_api where
  "always_text i req = Inr text_response"

definition text_then_quota_fault :: content_api where
  "text_then_quota_fault i req =
     (if i = 0 then Inr text_response else Inl (Error (ascii ''quota exceeded'')))"



definition echo_api :: content_api where
  "echo_api i req =
     Inr \<lparr>candidates = Some [\<lparr>content = Some \<lparr>parts = Some
             [\<lparr>inlineData = Some \<lparr>mimeType = ascii ''image/png'', data = request_text req\<rparr>,
               part_text = None\<rparr>]\<rparr>\<rparr>],
          response_text = None\<rparr>"

definition job_running :: operation where
  "job_running = \<lparr>name = ascii ''operations/7'', is_done = False, response = None\<rparr>"

definition job_refreshed :: operation where
  "job_refreshed = \<lparr>name = ascii ''operations/7#2'', is_done = False, response = None\<rparr>"

definition job_done :: operation where
  "job_done =
     \<lparr>name = ascii ''operations/7#3'', is_done = True,
      response = Some \<lparr>generatedVideos = Some
        [\<lparr>video = Some \<lparr>uri = Some (ascii ''https://example.test/v?alt=media'')\<rparr>\<rparr>]\<rparr>\<rparr>"

definition job_done_no_link :: operation where
  "job_done_no_link =
     \<lparr>name = ascii ''operations/7#3'', is_done = True,
      response = Some \<lparr>generatedVideos = Some []\<rparr>\<rparr>"

definition two_poll_env :: video_env where
  "two_poll_env =
     \<lparr>generateVideos = (\<lambda>req. Inr job_running),
      getVideosOperation = (\<lambda>i h. if i = 0 then Inr job_refreshed else Inr job_done),
      API_KEY = Some (ascii ''KEY''),
      fetch = (\<lambda>url. Inr \<lparr>ok = True, statusText = ascii ''OK'', read_blob = Inr [0, 1, 2]\<rparr>),
      createObjectURL = (\<lambda>b. ascii ''blob:video'')\<rparr>"

definition no_link_env :: video_env where
  "no_link_env = two_poll_env\<lparr>getVideosOperation := (\<lambda>i h. Inr job_done_no_link)\<rparr>"

definition collect :: "jsstring \<Rightarrow> jsstring list \<Rightarrow> jsstring list" where
  "collect msg seen = seen @ [msg]"

definition count_message :: "jsstring \<Rightarrow> nat \<Rightarrow> nat" where
  "count_message msg n = Suc n"

definition throwing_sink :: "unit sink" where
  "throwing_sink msg u = Inl (Error (ascii ''sink failed''))"

definition throw_on_fetching :: "unit sink" where
  "throw_on_fetching msg u =
     (if msg = fetching_message then Inl (Error (ascii ''sink failed'')) else Inr u)"

definition holiday_photo :: js_file where
  "holiday_photo = \<lparr>file_name = ascii ''a.png'', lastModified = 1700000000000,
                     file_type = ascii ''image/png''\<rparr>"

definition other_photo :: js_file where
  "other_photo = \<lparr>file_name = ascii ''b.png'', lastModified = 1700000000001,
                   file_type = ascii ''image/png''\<rparr>"

definition editing_state :: app_state where
  "editing_state =
     \<lparr>isLoading = False, error = None,
      editState = \<lparr>prompt = ascii ''add a hat'',
                   originalFiles = [holiday_photo, other_photo],
                   editedImages = [fileKey holiday_photo \<mapsto> Some (ascii ''OLD''),
                                   fileKey other_photo \<mapsto> Some (ascii ''KEEP'')],
                   selectedFileIndex = Some 0,
                   outputName = ascii ''edited-image'',
                   isOutpaint = False\<rparr>\<rparr>"

definition read_as_base64 :: "js_file \<Rightarrow> fault + jsstring" where
  "read_as_base64 f = Inr (ascii ''AAAA'')"

section \<open>Properties of the loops\<close>

lemma js_iterate_leaves:
  "js_iterate n body s = Inr r \<Longrightarrow> js_while body s = Some r"
proof (induction n arbitrary: s)
  case 0
  then show ?case by simp
next
  case (Suc n)
  show ?case
  proof (cases "body s")
    case (Inl s')
    with Suc.prems have "js_iterate n body s' = Inr r" by simp
    then have "js_while body s' = Some r" by (rule Suc.IH)
    with Inl show ?thesis by (subst js_while.simps) simp
  next
    case (Inr r')
    with Suc.prems show ?thesis by (subst js_while.simps) simp
  qed
qed

lemma js_while_leaves:
  "js_while body s = Some r \<Longrightarrow> \<exists>n. js_iterate n body s = Inr r"
proof (induction rule: js_while.raw_induct [rotated 1, consumes 1, case_names step])
  case (step f body s r)
  show ?case
  proof (cases "body s")
    case (Inl s')
    with step(2) have "f body s' = Some r" by simp
    then obtain n where "js_iterate n body s' = Inr r" using step(1) by blast
    with Inl have "js_iterate (Suc n) body s = Inr r" by simp
    then show ?thesis ..
  next
    case (Inr r')
    with step(2) have "js_iterate (Suc 0) body s = Inr r" by simp
    then show ?thesis ..
  qed
qed

lemma js_iterate_mono:
  "js_iterate n body s = Inr r \<Longrightarrow> js_iterate (n + k) body s = Inr r"
  by (induction n arbitrary: s) (auto split: sum.splits)

lemma js_while_forever:
  assumes "\<And>n. \<exists>s'. js_iterate n body s = Inl s'"
  shows "js_while body s = None"
proof (cases "js_while body s")
  case None
  then show ?thesis .
next
  case (Some r)
  from js_while_leaves [OF Some] obtain n where "js_iterate n body s = Inr r" ..
  with assms [of n] show ?thesis by auto
qed

lemma js_iterate_continue:
  "js_iterate m body s = Inl s' \<Longrightarrow> js_iterate (m + n) body s = js_iterate n body s'"
  by (induction m arbitrary: s) (auto split: sum.splits)

section \<open>Properties of editImage\<close>

lemma content_calls_append: "content_calls (xs @ ys) = content_calls xs @ content_calls ys"
  by (induction xs rule: content_calls.induct) simp_all

lemma delays_append: "delays (xs @ ys) = delays xs @ delays ys"
  by (induction xs rule: delays.induct) simp_all

lemma imagePart_is_image: "imagePart r = Some p \<Longrightarrow> is_image_part p"
  by (auto simp: imagePart_def find_Some_iff split: option.splits list.splits)

lemma imagePart_inlineData: "imagePart r = Some p \<Longrightarrow> \<exists>b. inlineData p = Some b"
  by (drule imagePart_is_image) (simp add: is_image_part_def split: option.splits)

lemma editImage_attempt_retry:
  assumes "api s 0 req = Inr r" and "imagePart r = None"
  shows "editImage_attempt req s =
    Inl \<lparr>api = api s \<circ> Suc, attempt = attempt s + 1,
         trace = trace s @ [GenerateContent req, ConsoleWarn (retry_warning (attempt s) r),
                            SetTimeout RETRY_DELAY]\<rparr>"
  using assms by (simp add: editImage_attempt_def)

lemma editImage_attempt_image:
  assumes "api s 0 req = Inr r" and "imagePart r = Some p" and "inlineData p = Some b"
  shows "editImage_attempt req s = Inr (trace s @ [GenerateContent req], Inr (data b))"
  using assms by (simp add: editImage_attempt_def)

lemma editImage_attempt_fault:
  assumes "api s 0 req = Inl e"
  shows "editImage_attempt req s = Inr (trace s @ [GenerateContent req], Inl e)"
  using assms by (simp add: editImage_attempt_def)

lemma editImage_retries:
  assumes "\<forall>i<n. \<exists>r. api s i req = Inr r \<and> imagePart r = None"
  shows "\<exists>s'. js_iterate n (editImage_attempt req) s = Inl s'
           \<and> api s' = (\<lambda>i. api s (i + n))
           \<and> attempt s' = attempt s + n
           \<and> content_calls (trace s') = content_calls (trace s) @ replicate n req
           \<and> delays (trace s') = delays (trace s) @ replicate n RETRY_DELAY"
  using assms
proof (induction n)
  case 0
  then show ?case by simp
next
  case (Suc n)
  then obtain s' where run: "js_iterate n (editImage_attempt req) s = Inl s'"
    and s': "api s' = (\<lambda>i. api s (i + n))" "attempt s' = attempt s + n"
      "content_calls (trace s') = content_calls (trace s) @ replicate n req"
      "delays (trace s') = delays (trace s) @ replicate n RETRY_DELAY"
    by auto
  from Suc.prems obtain r where r: "api s n req = Inr r" "imagePart r = None"
    by auto
  with s' have "api s' 0 req = Inr r" by simp
  note step = editImage_attempt_retry [OF this r(2)]
  have "js_iterate (n + 1) (editImage_attempt req) s = js_iterate 1 (editImage_attempt req) s'"
    using run by (rule js_iterate_continue)
  with step have "js_iterate (Suc n) (editImage_attempt req) s =
     Inl \<lparr>api = api s' \<circ> Suc, attempt = attempt s' + 1,
         trace = trace s' @ [GenerateContent req, ConsoleWarn (retry_warning (attempt s') r),
                            SetTimeout RETRY_DELAY]\<rparr>"
    by simp
  moreover have "api s' \<circ> Suc = (\<lambda>i. api s (i + Suc n))"
    using s' by (simp add: fun_eq_iff)
  ultimately show ?case
    using s' by (simp add: content_calls_append delays_append replicate_append_same)
qed

lemma editImage_loop_image:
  assumes "\<forall>i<n. \<exists>r. remote i req = Inr r \<and> imagePart r = None"
    and "remote n req = Inr r" and "imagePart r = Some p" and "inlineData p = Some b"
  shows "\<exists>tr. js_while (editImage_attempt req) (edit_start remote) = Some (tr, Inr (data b))
           \<and> content_calls tr = replicate (Suc n) req
           \<and> delays tr = replicate n RETRY_DELAY"
proof -
  from assms(1) have "\<forall>i<n. \<exists>r. api (edit_start remote) i req = Inr r \<and> imagePart r = None"
    by (simp add: edit_start_def)
  from editImage_retries [OF this]
  obtain s' where run: "js_iterate n (editImage_attempt req) (edit_start remote) = Inl s'"
    and s': "api s' = (\<lambda>i. remote (i + n))"
      "content_calls (trace s') = replicate n req"
      "delays (trace s') = replicate n RETRY_DELAY"
    by (auto simp: edit_start_def)
  from s' assms(2) have "api s' 0 req = Inr r" by simp
  note last = editImage_attempt_image [OF this assms(3,4)]
  have "js_iterate (n + 1) (editImage_attempt req) (edit_start remote)
          = js_iterate 1 (editImage_attempt req) s'"
    using run by (rule js_iterate_continue)
  with last have "js_iterate (Suc n) (editImage_attempt req) (edit_start remote)
          = Inr (trace s' @ [GenerateContent req], Inr (data b))"
    by simp
  then have "js_while (editImage_attempt req) (edit_start remote)
          = Some (trace s' @ [GenerateContent req], Inr (data b))"
    by (rule js_iterate_leaves)
  with s' show ?thesis
    by (simp add: content_calls_append delays_append replicate_append_same)
qed

lemma editImage_loop_fault:
  assumes "\<forall>i<n. \<exists>r. remote i req = Inr r \<and> imagePart r = None"
    and "remote n req = Inl e"
  shows "\<exists>tr. js_while (editImage_attempt req) (edit_start remote) = Some (tr, Inl e)
           \<and> content_calls tr = replicate (Suc n) req
           \<and> delays tr = replicate n RETRY_DELAY"
proof -
  from assms(1) have "\<forall>i<n. \<exists>r. api (edit_start remote) i req = Inr r \<and> imagePart r = None"
    by (simp add: edit_start_def)
  from editImage_retries [OF this]
  obtain s' where run: "js_iterate n (editImage_attempt req) (edit_start remote) = Inl s'"
    and s': "api s' = (\<lambda>i. remote (i + n))"
      "content_calls (trace s') = replicate n req"
      "delays (trace s') = replicate n RETRY_DELAY"
    by (auto simp: edit_start_def)
  from s' assms(2) have "api s' 0 req = Inl e" by simp
  note last = editImage_attempt_fault [OF this]
  have "js_iterate (n + 1) (editImage_attempt req) (edit_start remote)
          = js_iterate 1 (editImage_attempt req) s'"
    using run by (rule js_iterate_continue)
  with last have "js_iterate (Suc n) (editImage_attempt req) (edit_start remote)
          = Inr (trace s' @ [GenerateContent req], Inl e)"
    by simp
  then have "js_while (editImage_attempt req) (edit_start remote)
          = Some (trace s' @ [GenerateContent req], Inl e)"
    by (rule js_iterate_leaves)
  with s' show ?thesis
    by (simp add: content_calls_append delays_append replicate_append_same)
qed

text \<open>
  C1. The parts of a response are those that \<open>editImage\<close> reads, the parts of its first
  candidate. When the first \<open>n\<close> attempts return responses in which \<open>imagePart\<close> finds no
  image-typed part and attempt \<open>n + 1\<close> returns a response in which it finds the part
  \<open>ip\<close> (whatever text comes with it), \<open>editImage\<close> returns the data of \<open>ip\<close>, having made
  exactly \<open>n + 1\<close> remote calls, all with the same request, and exactly \<open>n\<close> delays of
  \<open>RETRY_DELAY\<close> each.
\<close>

theorem editImage_returns_image:
  assumes "\<forall>i<n. \<exists>r. remote i (edit_request b m p) = Inr r \<and> imagePart r = None"
    and "remote n (edit_request b m p) = Inr r"
    and "imagePart r = Some ip"
  shows "\<exists>tr img. inlineData ip = Some img
           \<and> editImage remote b m p = Some (tr, Inr (data img))
           \<and> content_calls tr = replicate (Suc n) (edit_request b m p)
           \<and> delays tr = replicate n RETRY_DELAY"
proof -
  from imagePart_inlineData [OF assms(3)] obtain img where img: "inlineData ip = Some img" ..
  from editImage_loop_image [where remote = remote and req = "edit_request b m p", OF assms img] obtain tr where
    "js_while (editImage_attempt (edit_request b m p)) (edit_start remote) = Some (tr, Inr (data img))"
    "content_calls tr = replicate (Suc n) (edit_request b m p)"
    "delays tr = replicate n RETRY_DELAY"
    by blast
  with img show ?thesis by (simp add: editImage_def)
qed

text \<open>
  C3. When the remote call throws on attempt \<open>n + 1\<close> (the attempts before it having
  returned no image), \<open>editImage\<close> makes no further call: exactly \<open>n + 1\<close> calls were made.
  It ends with one \<open>Error\<close> whose message is the prefix naming the edit operation
  followed by the message of the fault, or the unknown-error message when what was
  thrown is not an \<open>Error\<close> and so carries no message.
\<close>

theorem editImage_fault_fatal:
  assumes "\<forall>i<n. \<exists>r. remote i (edit_request b m p) = Inr r \<and> imagePart r = None"
    and "remote n (edit_request b m p) = Inl e"
  shows "\<exists>tr. editImage remote b m p =
             Some (tr, Inl (case e of Error message \<Rightarrow> Error (edit_failed_prefix @ message)
                            | NonError \<Rightarrow> Error edit_unknown_error))
           \<and> content_calls tr = replicate (Suc n) (edit_request b m p)
           \<and> delays tr = replicate n RETRY_DELAY"
proof -
  from editImage_loop_fault [where remote = remote and req = "edit_request b m p", OF assms] obtain tr where
    "js_while (editImage_attempt (edit_request b m p)) (edit_start remote) = Some (tr, Inl e)"
    "content_calls tr = replicate (Suc n) (edit_request b m p)"
    "delays tr = replicate n RETRY_DELAY"
    by blast
  then show ?thesis by (simp add: editImage_def edit_catch_def content_calls_append delays_append)
qed

text \<open>
  C2. When every remote call returns a response without an image-typed part (and none
  throws), \<open>editImage\<close> never returns. For every \<open>n\<close> the loop of \<open>editImage\<close> is still
  running after \<open>n\<close> attempts, about to make attempt \<open>n + 1\<close>: it has made \<open>n\<close> calls and
  waited \<open>n\<close> times, 1000 ms each time. There is no ceiling, and \<open>editImage\<close> itself makes
  attempt \<open>n + 1\<close>: were the service to answer that one call with an image, the others
  as they are, \<open>editImage\<close> would return that image, after \<open>n + 1\<close> calls and \<open>n\<close> waits of
  1000 ms.
\<close>

theorem editImage_never_gives_up:
  assumes "\<forall>i. \<exists>r. remote i (edit_request b m p) = Inr r \<and> imagePart r = None"
  shows "editImage remote b m p = None
     \<and> (\<forall>n. \<exists>s. js_iterate n (editImage_attempt (edit_request b m p)) (edit_start remote) = Inl s
            \<and> attempt s = n + 1
            \<and> content_calls (trace s) = replicate n (edit_request b m p)
            \<and> delays (trace s) = replicate n 1000)
     \<and> (\<forall>n r ip. imagePart r = Some ip \<longrightarrow>
          (\<exists>tr img. inlineData ip = Some img
             \<and> editImage (remote(n := (\<lambda>req. Inr r))) b m p = Some (tr, Inr (data img))
             \<and> content_calls tr = replicate (Suc n) (edit_request b m p)
             \<and> delays tr = replicate n 1000))"
proof -
  let ?req = "edit_request b m p"
  have run: "\<exists>s. js_iterate n (editImage_attempt ?req) (edit_start remote) = Inl s
            \<and> attempt s = n + 1
            \<and> content_calls (trace s) = replicate n ?req
            \<and> delays (trace s) = replicate n 1000" for n
  proof -
    from assms have "\<forall>i<n. \<exists>r. api (edit_start remote) i ?req = Inr r \<and> imagePart r = None"
      by (simp add: edit_start_def)
    from editImage_retries [OF this] show ?thesis
      by (auto simp: edit_start_def RETRY_DELAY_def)
  qed
  then have "js_while (editImage_attempt ?req) (edit_start remote) = None"
    by (intro js_while_forever) blast
  then have never: "editImage remote b m p = None" by (simp add: editImage_def)
  have taken: "\<exists>tr img. inlineData ip = Some img
             \<and> editImage (remote(n := (\<lambda>req. Inr r))) b m p = Some (tr, Inr (data img))
             \<and> content_calls tr = replicate (Suc n) ?req
             \<and> delays tr = replicate n 1000"
    if ip: "imagePart r = Some ip" for n r ip
  proof -
    let ?remote = "remote(n := (\<lambda>req. Inr r))"
    from imagePart_inlineData [OF ip] obtain img where img: "inlineData ip = Some img" ..
    from assms have before: "\<forall>i<n. \<exists>r. ?remote i ?req = Inr r \<and> imagePart r = None"
      by simp
    have at: "?remote n ?req = Inr r" by simp
    from editImage_loop_image [where remote = ?remote and req = ?req, OF before at ip img]
    obtain tr where
      "js_while (editImage_attempt ?req) (edit_start ?remote) = Some (tr, Inr (data img))"
      "content_calls tr = replicate (Suc n) ?req"
      "delays tr = replicate n RETRY_DELAY"
      by blast
    with img show ?thesis by (simp add: editImage_def RETRY_DELAY_def)
  qed
  from never run taken show ?thesis by blast
qed

lemma imagePart_text_response: "imagePart text_response = None"
  by (simp add: imagePart_def text_response_def text_only_part_def is_image_part_def)

lemma imagePart_image_response: "imagePart image_response = Some png_part"
  by (simp add: imagePart_def image_response_def text_only_part_def png_part_def
      is_image_part_def startsWith_def ascii_def)

theorem editImage_returns_image_witness:
  "\<exists>tr. editImage text_then_image (ascii ''AAAA'') (ascii ''image/jpeg'') (ascii ''add a hat'')
          = Some (tr, Inr (ascii ''iVBORw0KGgo=''))
      \<and> length (content_calls tr) = 2 \<and> delays tr = [1000]"
  using editImage_returns_image [of 1 text_then_image "ascii ''AAAA''" "ascii ''image/jpeg''"
      "ascii ''add a hat''" image_response png_part]
  by (auto simp: text_then_image_def imagePart_text_response imagePart_image_response
      png_part_def RETRY_DELAY_def)

theorem editImage_fault_fatal_witness:
  "\<exists>tr. editImage text_then_quota_fault (ascii ''AAAA'') (ascii ''image/jpeg'') (ascii ''add a hat'')
          = Some (tr, Inl (Error (edit_failed_prefix @ ascii ''quota exceeded'')))
      \<and> length (content_calls tr) = 2"
  using editImage_fault_fatal [of 1 text_then_quota_fault "ascii ''AAAA''" "ascii ''image/jpeg''"
      "ascii ''add a hat''" "Error (ascii ''quota exceeded'')"]
  by (auto simp: text_then_quota_fault_def imagePart_text_response)

theorem editImage_never_gives_up_witness:
  "editImage always_text (ascii ''AAAA'') (ascii ''image/jpeg'') (ascii ''add a hat'') = None
   \<and> (\<exists>s. js_iterate 3 (editImage_attempt
               (edit_request (ascii ''AAAA'') (ascii ''image/jpeg'') (ascii ''add a hat'')))
             (edit_start always_text) = Inl s
          \<and> attempt s = 4 \<and> length (content_calls (trace s)) = 3
          \<and> delays (trace s) = [1000, 1000, 1000])
   \<and> (\<exists>tr. editImage (always_text(3 := (\<lambda>req. Inr image_response)))
               (ascii ''AAAA'') (ascii ''image/jpeg'') (ascii ''add a hat'')
             = Some (tr, Inr (ascii ''iVBORw0KGgo=''))
          \<and> length (content_calls tr) = 4 \<and> delays tr = [1000, 1000, 1000])"
proof -
  have forever: "\<forall>i. \<exists>r. always_text i
      (edit_request (ascii ''AAAA'') (ascii ''image/jpeg'') (ascii ''add a hat'')) = Inr r
        \<and> imagePart r = None"
    by (simp add: always_text_def imagePart_text_response)
  note claim = editImage_never_gives_up [of always_text "ascii ''AAAA''" "ascii ''image/jpeg''"
      "ascii ''add a hat''", OF forever]
  from claim have never:
    "editImage always_text (ascii ''AAAA'') (ascii ''image/jpeg'') (ascii ''add a hat'') = None"
    by (rule conjunct1)
  from claim have "\<exists>s. js_iterate 3 (editImage_attempt
               (edit_request (ascii ''AAAA'') (ascii ''image/jpeg'') (ascii ''add a hat'')))
             (edit_start always_text) = Inl s
          \<and> attempt s = 3 + 1
          \<and> content_calls (trace s) = replicate 3
               (edit_request (ascii ''AAAA'') (ascii ''image/jpeg'') (ascii ''add a hat''))
          \<and> delays (trace s) = replicate 3 1000"
    by blast
  then have running: "\<exists>s. js_iterate 3 (editImage_attempt
               (edit_request (ascii ''AAAA'') (ascii ''image/jpeg'') (ascii ''add a hat'')))
             (edit_start always_text) = Inl s
          \<and> attempt s = 4 \<and> length (content_calls (trace s)) = 3
          \<and> delays (trace s) = [1000, 1000, 1000]"
    by (auto simp: numeral_3_eq_3)
  from claim imagePart_image_response
  have "\<exists>tr img. inlineData png_part = Some img
          \<and> editImage (always_text(3 := (\<lambda>req. Inr image_response)))
               (ascii ''AAAA'') (ascii ''image/jpeg'') (ascii ''add a hat'')
             = Some (tr, Inr (data img))
          \<and> content_calls tr = replicate (Suc 3)
               (edit_request (ascii ''AAAA'') (ascii ''image/jpeg'') (ascii ''add a hat''))
          \<and> delays tr = replicate 3 1000"
    by blast
  then have taken: "\<exists>tr. editImage (always_text(3 := (\<lambda>req. Inr image_response)))
               (ascii ''AAAA'') (ascii ''image/jpeg'') (ascii ''add a hat'')
             = Some (tr, Inr (ascii ''iVBORw0KGgo=''))
          \<and> length (content_calls tr) = 4 \<and> delays tr = [1000, 1000, 1000]"
    by (auto simp: png_part_def numeral_3_eq_3)
  from never running taken show ?thesis by blast
qed




lemma trim_empty: "trim [] = []"
  by (simp add: trim_def)

section \<open>Properties of outpaintImage and upscaleImage\<close>

text \<open>
  C6, amended. \<open>outpaintImage\<close> with an absent prompt, or with a prompt that is empty or
  has white space only, is \<open>editImage\<close> with the fixed default prompt. With a prompt that
  has a character other than white space it is \<open>editImage\<close> with that prompt, untrimmed.
  \<open>upscaleImage\<close> is \<open>editImage\<close> with the fixed upscale prompt.
\<close>

theorem outpaint_upscale_prompts:
  "outpaintImage remote b m None = editImage remote b m outpaint_default_prompt
   \<and> (trim p = [] \<longrightarrow>
        outpaintImage remote b m (Some p) = editImage remote b m outpaint_default_prompt)
   \<and> (trim p \<noteq> [] \<longrightarrow> outpaintImage remote b m (Some p) = editImage remote b m p)
   \<and> upscaleImage remote b m = editImage remote b m upscale_prompt"
  by (auto simp: outpaintImage_def upscaleImage_def trim_empty)

lemma editImage_echo: "editImage echo_api b m p = Some ([GenerateContent (edit_request b m p)], Inr p)"
  unfolding editImage_def
  by (subst js_while.simps)
    (simp add: editImage_attempt_def edit_start_def echo_api_def imagePart_def is_image_part_def
      startsWith_def ascii_def edit_request_def)

theorem outpaint_upscale_prompts_witness:
  "outpaintImage echo_api [] [] (Some []) = Some ([GenerateContent (edit_request [] [] outpaint_default_prompt)], Inr outpaint_default_prompt)
   \<and> outpaintImage echo_api [] [] (Some (ascii ''sky'')) = Some ([GenerateContent (edit_request [] [] (ascii ''sky''))], Inr (ascii ''sky''))"
  using outpaint_upscale_prompts [of echo_api "[]" "[]" "[]"]
    outpaint_upscale_prompts [of echo_api "[]" "[]" "ascii ''sky''"]
  by (simp add: editImage_echo trim_def ascii_def js_whitespace_def)

text \<open>
  C6 as stated fails for a prompt that is not empty but blank: for the prompt of one
  space, \<open>outpaintImage\<close> sends the default prompt, \<open>editImage\<close> sends the space.
\<close>

theorem outpaint_blank_prompt_counterexample:
  "[0x20] \<noteq> ([] :: jsstring)
   \<and> outpaintImage echo_api [] [] (Some [0x20]) \<noteq> editImage echo_api [] [] [0x20]"
  by (simp add: outpaintImage_def editImage_echo trim_def js_whitespace_def
      outpaint_default_prompt_def Let_def)

section \<open>Properties of generateImage\<close>

text \<open>
  C7. \<open>generateImage\<close> makes exactly one remote call and has no loop. When the list of
  generated images is not empty it returns the bytes of the first image. When the list
  is empty or absent it fails at once with the translated error, and when the call
  throws, with the translation of that fault.
\<close>

theorem generateImage_single_call:
  "image_calls (fst (generateImage remote txt)) = [images_request txt]
   \<and> snd (generateImage remote txt) =
       (case remote (images_request txt) of
          Inl e \<Rightarrow> Inl (image_catch e)
        | Inr r \<Rightarrow>
            (case generatedImages r of
               None \<Rightarrow> Inl (Error (image_failed_prefix @ no_images_message))
             | Some [] \<Rightarrow> Inl (Error (image_failed_prefix @ no_images_message))
             | Some (g # _) \<Rightarrow> Inr (imageBytes (generated g))))"
  by (simp add: generateImage_def generateImage_try_def image_catch_def
      split: sum.splits option.splits list.splits)

section \<open>Invariants and simulations of loops\<close>

lemma js_iterate_invariant:
  assumes step: "\<And>s s'. I s \<Longrightarrow> body s = Inl s' \<Longrightarrow> I s'"
    and leave: "\<And>s r. I s \<Longrightarrow> body s = Inr r \<Longrightarrow> Q r"
    and "I s"
  shows "case js_iterate n body s of Inl s' \<Rightarrow> I s' | Inr r \<Rightarrow> Q r"
  using \<open>I s\<close>
proof (induction n arbitrary: s)
  case 0
  then show ?case by simp
next
  case (Suc n)
  show ?case
  proof (cases "body s")
    case (Inl s')
    with Suc.prems have "I s'" by (auto intro: step)
    from Suc.IH [OF this] Inl show ?thesis by simp
  next
    case (Inr r)
    with Suc.prems have "Q r" by (auto intro: leave)
    with Inr show ?thesis by simp
  qed
qed

lemma js_while_invariant:
  assumes "js_while body s = Some r"
    and "I s"
    and step: "\<And>s s'. I s \<Longrightarrow> body s = Inl s' \<Longrightarrow> I s'"
    and leave: "\<And>s r. I s \<Longrightarrow> body s = Inr r \<Longrightarrow> Q r"
  shows "Q r"
proof -
  from js_while_leaves [OF assms(1)] obtain n where "js_iterate n body s = Inr r" ..
  with js_iterate_invariant [of I body Q s n, OF step leave \<open>I s\<close>] show ?thesis by simp
qed

lemma js_iterate_simulation:
  assumes sim: "\<And>s t. R s t \<Longrightarrow> rel_sum R Q (body1 s) (body2 t)"
    and "R s t"
  shows "rel_sum R Q (js_iterate n body1 s) (js_iterate n body2 t)"
  using \<open>R s t\<close>
proof (induction n arbitrary: s t)
  case 0
  then show ?case by simp
next
  case (Suc n)
  from sim [OF Suc.prems] show ?case
    by (cases "body1 s"; cases "body2 t") (auto intro: Suc.IH)
qed

lemma js_while_simulation:
  assumes sim: "\<And>s t. R s t \<Longrightarrow> rel_sum R Q (body1 s) (body2 t)"
    and "R s t"
  shows "rel_option Q (js_while body1 s) (js_while body2 t)"
proof -
  have iter: "rel_sum R Q (js_iterate n body1 s) (js_iterate n body2 t)" for n
    using sim \<open>R s t\<close> by (rule js_iterate_simulation)
  show ?thesis
  proof (cases "js_while body1 s")
    case None
    have "js_while body2 t = None"
    proof (rule ccontr)
      assume "js_while body2 t \<noteq> None"
      then obtain r' where "js_while body2 t = Some r'" by auto
      from js_while_leaves [OF this] obtain n where "js_iterate n body2 t = Inr r'" ..
      with iter [of n] obtain r where "js_iterate n body1 s = Inr r"
        by (auto elim: rel_sum.cases)
      from js_iterate_leaves [OF this] None show False by simp
    qed
    with None show ?thesis by simp
  next
    case (Some r)
    from js_while_leaves [OF this] obtain n where n: "js_iterate n body1 s = Inr r" ..
    with iter [of n] obtain r' where r': "js_iterate n body2 t = Inr r'" "Q r r'"
      by (auto elim: rel_sum.cases)
    from js_iterate_leaves [OF r'(1)] Some r'(2) show ?thesis by simp
  qed
qed

section \<open>Properties of generateVideo\<close>

lemma length_messages: "length messages = 5"
  by (simp add: messages_def)

lemma submissions_append: "submissions (xs @ ys) = submissions xs @ submissions ys"
  by (induction xs rule: submissions.induct) simp_all

lemma polls_append: "polls (xs @ ys) = polls xs @ polls ys"
  by (induction xs rule: polls.induct) simp_all

lemma retrievals_append: "retrievals (xs @ ys) = retrievals xs @ retrievals ys"
  by (induction xs rule: retrievals.induct) simp_all

lemma progress_append: "progress (xs @ ys) = progress xs @ progress ys"
  by (induction xs rule: progress.induct) simp_all

subsection \<open>No retrieval before the loop is left\<close>

lemma submit_no_retrieval:
  "generateVideo_submit env onProgress p0 txt b m = Inr s0 \<Longrightarrow> retrievals (events s0) = []"
  by (auto simp: generateVideo_submit_def Let_def split: sum.splits)

lemma poll_no_retrieval:
  assumes "js_while (generateVideo_poll onProgress) s0 = Some (x, s)"
    and "retrievals (events s0) = []"
  shows "retrievals (events s) = [] \<and> (x = None \<longrightarrow> is_done (current s))"
proof -
  have "case (x, s) of (x, s) \<Rightarrow> retrievals (events s) = [] \<and> (x = None \<longrightarrow> is_done (current s))"
    using assms
  proof (rule js_while_invariant [where I = "\<lambda>s. retrievals (events s) = []"])
    fix s s' :: "'a poll_loop"
    assume "retrievals (events s) = []" "generateVideo_poll onProgress s = Inl s'"
    then show "retrievals (events s') = []"
      by (auto simp: generateVideo_poll_def Let_def retrievals_append
          split: if_splits sum.splits)
  next
    fix s :: "'a poll_loop" and r
    assume "retrievals (events s) = []" "generateVideo_poll onProgress s = Inr r"
    then show "case r of (x, s) \<Rightarrow> retrievals (events s) = [] \<and> (x = None \<longrightarrow> is_done (current s))"
      by (auto simp: generateVideo_poll_def Let_def retrievals_append
          split: if_splits sum.splits)
  qed
  then show ?thesis by simp
qed

text \<open>
  C5. Whenever the polling loop is left with a handle that is done but the handle has no
  result locator (or an empty one), \<open>generateVideo\<close> ends with the translated error of
  the missing download link, and its trace has no \<open>fetch\<close>.
\<close>

theorem generateVideo_no_locator:
  assumes "generateVideo_submit env onProgress p0 txt b m = Inr s0"
    and "js_while (generateVideo_poll onProgress) s0 = Some (None, s)"
    and "downloadLink (current s) = None \<or> downloadLink (current s) = Some []"
  shows "is_done (current s)
     \<and> (\<exists>tr p. generateVideo env onProgress p0 txt b m =
            Some (tr, p, Inl (Error (video_failed_prefix @ no_link_message)))
          \<and> retrievals tr = [])"
proof -
  from poll_no_retrieval [OF assms(2) submit_no_retrieval [OF assms(1)]]
  have quiet: "retrievals (events s) = []" and "is_done (current s)" by simp_all
  from assms(3) have "generateVideo_retrieve env onProgress s =
      (events s, sink_state s, Inl (Error no_link_message))"
    by (auto simp: generateVideo_retrieve_def)
  with assms(1,2) have "generateVideo env onProgress p0 txt b m =
      Some (events s @ [ConsoleError (Error no_link_message)], sink_state s,
            Inl (Error (video_failed_prefix @ no_link_message)))"
    by (simp add: generateVideo_def generateVideo_try_def video_catch_def)
  with quiet \<open>is_done (current s)\<close> show ?thesis
    by (simp add: retrievals_append)
qed

lemma no_link_env_run:
  "generateVideo_submit no_link_env (returning collect) [] [] None None =
     Inr \<lparr>status_api = (\<lambda>i h. Inr job_done_no_link), current = job_running, messageIndex = 0,
          sink_state = [initializing_message],
          events = [OnProgress initializing_message, GenerateVideos (videos_request [] None None)]\<rparr>"
  by (simp add: generateVideo_submit_def no_link_env_def two_poll_env_def returning_def
      collect_def)

lemma no_link_env_poll:
  "js_while (generateVideo_poll (returning collect))
     \<lparr>status_api = (\<lambda>i h. Inr job_done_no_link), current = job_running, messageIndex = 0,
      sink_state = [initializing_message],
      events = [OnProgress initializing_message, GenerateVideos (videos_request [] None None)]\<rparr>
   = Some (None,
     \<lparr>status_api = (\<lambda>i h. Inr job_done_no_link) \<circ> Suc, current = job_done_no_link,
      messageIndex = 1,
      sink_state = [initializing_message, messages ! 0],
      events = [OnProgress initializing_message, GenerateVideos (videos_request [] None None),
                OnProgress (messages ! 0), SetTimeout POLLING_INTERVAL,
                GetVideosOperation job_running]\<rparr>)"
  by (rule js_iterate_leaves [where n = "Suc (Suc 0)"])
    (simp add: generateVideo_poll_def returning_def collect_def job_running_def
      job_done_no_link_def length_messages Let_def)

theorem generateVideo_no_locator_witness:
  "\<exists>tr p. generateVideo no_link_env (returning collect) [] [] None None =
            Some (tr, p, Inl (Error (video_failed_prefix @ no_link_message)))
          \<and> retrievals tr = []"
  using generateVideo_no_locator [OF no_link_env_run no_link_env_poll]
  by (simp add: downloadLink_def job_done_no_link_def)

subsection \<open>Two polls\<close>

lemma two_polls_loop:
  assumes "\<not> is_done h0" and "polling 0 h0 = Inr h1" and "\<not> is_done h1"
    and "polling 1 h1 = Inr h2" and "is_done h2"
    and "onProgress (messages ! 0) p1 = Inr p2" and "onProgress (messages ! 1) p2 = Inr p3"
  shows "js_while (generateVideo_poll onProgress)
      \<lparr>status_api = polling, current = h0, messageIndex = 0, sink_state = p1, events = tr\<rparr>
    = Some (None,
      \<lparr>status_api = polling \<circ> Suc \<circ> Suc, current = h2, messageIndex = 2,
       sink_state = p3,
       events = tr @ [OnProgress (messages ! 0), SetTimeout POLLING_INTERVAL,
                      GetVideosOperation h0,
                      OnProgress (messages ! 1), SetTimeout POLLING_INTERVAL,
                      GetVideosOperation h1]\<rparr>)"
  by (rule js_iterate_leaves [where n = "Suc (Suc (Suc 0))"])
    (insert assms, simp add: generateVideo_poll_def length_messages Let_def)

lemma retrieve_shape:
  assumes "downloadLink (current s) = Some link" and "link \<noteq> []"
  shows "\<exists>tl r. generateVideo_retrieve env (returning f) s
            = (events s @ OnProgress fetching_message # tl, f fetching_message (sink_state s), r)
          \<and> submissions tl = [] \<and> polls tl = [] \<and> retrievals tl = [videoUrl env link]
          \<and> progress tl = []"
proof (cases "fetch env (videoUrl env link)")
  case (Inl e)
  with assms show ?thesis
    by (simp add: generateVideo_retrieve_def returning_def)
next
  case (Inr r)
  show ?thesis
  proof (cases "ok r")
    case False
    with Inr assms show ?thesis
      by (simp add: generateVideo_retrieve_def returning_def)
  next
    case True
    with Inr assms show ?thesis
      by (cases "read_blob r") (simp_all add: generateVideo_retrieve_def returning_def)
  qed
qed

text \<open>
  C4, amended. With a progress callback that always returns, and for the statuses not
  done (submission), not done (first poll), done with a locator (second poll),
  \<open>generateVideo\<close> submits once, polls twice, the first time with the handle of the
  submission and the second time with the handle that the first poll returned, and
  fetches once. The progress messages are the initial one, then
  \<open>messages ! 0\<close> and \<open>messages ! 1\<close>, then the fetching one; each rotating message comes
  right before the wait of its round, which comes before the poll.
\<close>

theorem generateVideo_two_polls:
  assumes "generateVideos env (videos_request txt b m) = Inr h0" and "\<not> is_done h0"
    and "getVideosOperation env 0 h0 = Inr h1" and "\<not> is_done h1"
    and "getVideosOperation env 1 h1 = Inr h2" and "is_done h2"
    and "downloadLink h2 = Some link" and "link \<noteq> []"
  shows "\<exists>tr p r. generateVideo env (returning f) p0 txt b m = Some (tr, p, r)
     \<and> prefix [OnProgress initializing_message,
                GenerateVideos (videos_request txt b m),
                OnProgress (messages ! 0), SetTimeout POLLING_INTERVAL, GetVideosOperation h0,
                OnProgress (messages ! 1), SetTimeout POLLING_INTERVAL, GetVideosOperation h1,
                OnProgress fetching_message] tr
     \<and> submissions tr = [videos_request txt b m]
     \<and> polls tr = [h0, h1]
     \<and> retrievals tr = [videoUrl env link]
     \<and> progress tr = [initializing_message, messages ! 0, messages ! 1, fetching_message]"
proof -
  let ?req = "videos_request txt b m"
  let ?p1 = "f initializing_message p0"
  let ?p2 = "f (messages ! 0) ?p1"
  let ?p3 = "f (messages ! 1) ?p2"
  let ?tr = "[OnProgress initializing_message, GenerateVideos ?req,
              OnProgress (messages ! 0), SetTimeout POLLING_INTERVAL, GetVideosOperation h0,
              OnProgress (messages ! 1), SetTimeout POLLING_INTERVAL, GetVideosOperation h1]"
  let ?s0 = "\<lparr>status_api = getVideosOperation env, current = h0, messageIndex = 0,
              sink_state = ?p1,
              events = [OnProgress initializing_message, GenerateVideos ?req]\<rparr>"
  let ?s2 = "\<lparr>status_api = getVideosOperation env \<circ> Suc \<circ> Suc, current = h2, messageIndex = 2,
              sink_state = ?p3, events = ?tr\<rparr>"
  have submit: "generateVideo_submit env (returning f) p0 txt b m = Inr ?s0"
    using assms(1) by (simp add: generateVideo_submit_def returning_def)
  have loop: "js_while (generateVideo_poll (returning f)) ?s0 = Some (None, ?s2)"
    using two_polls_loop [OF assms(2-6), where onProgress = "returning f" and ?p1.0 = ?p1
        and ?p2.0 = ?p2 and ?p3.0 = ?p3
        and tr = "[OnProgress initializing_message, GenerateVideos ?req]"]
    by (simp add: returning_def)
  have whole: "generateVideo_try env (returning f) p0 txt b m =
      Some (generateVideo_retrieve env (returning f) ?s2)"
    by (simp add: generateVideo_try_def submit loop)
  from retrieve_shape [of ?s2 link env f] assms(7,8)
  obtain tl r where retrieve: "generateVideo_retrieve env (returning f) ?s2
      = (?tr @ OnProgress fetching_message # tl, f fetching_message ?p3, r)"
    and tl: "submissions tl = []" "polls tl = []" "retrievals tl = [videoUrl env link]"
      "progress tl = []"
    by auto
  show ?thesis
  proof (cases r)
    case (Inl e)
    with whole retrieve have "generateVideo env (returning f) p0 txt b m =
        Some (?tr @ OnProgress fetching_message # tl @ [ConsoleError e], f fetching_message ?p3,
              Inl (video_catch e))"
      by (simp add: generateVideo_def)
    with tl show ?thesis
      by (simp add: submissions_append polls_append retrievals_append progress_append)
  next
    case (Inr url)
    with whole retrieve have "generateVideo env (returning f) p0 txt b m =
        Some (?tr @ OnProgress fetching_message # tl, f fetching_message ?p3, Inr url)"
      by (simp add: generateVideo_def)
    with tl show ?thesis
      by (simp add: submissions_append polls_append retrievals_append progress_append)
  qed
qed

lemma two_poll_env_run:
  "generateVideo two_poll_env (returning f) p0 [] None None =
     Some ([OnProgress initializing_message, GenerateVideos (videos_request [] None None),
            OnProgress (messages ! 0), SetTimeout POLLING_INTERVAL,
            GetVideosOperation job_running,
            OnProgress (messages ! 1), SetTimeout POLLING_INTERVAL,
            GetVideosOperation job_refreshed,
            OnProgress fetching_message,
            Fetch (ascii ''https://example.test/v?alt=media&key=KEY''),
            CreateObjectURL [0, 1, 2]],
           f fetching_message (f (messages ! 1) (f (messages ! 0) (f initializing_message p0))),
           Inr (ascii ''blob:video''))"
proof -
  have loop: "js_while (generateVideo_poll (returning f))
      \<lparr>status_api = getVideosOperation two_poll_env, current = job_running, messageIndex = 0,
       sink_state = f initializing_message p0,
       events = [OnProgress initializing_message, GenerateVideos (videos_request [] None None)]\<rparr>
    = Some (None,
      \<lparr>status_api = getVideosOperation two_poll_env \<circ> Suc \<circ> Suc, current = job_done,
       messageIndex = 2,
       sink_state = f (messages ! 1) (f (messages ! 0) (f initializing_message p0)),
       events = [OnProgress initializing_message, GenerateVideos (videos_request [] None None)]
                @ [OnProgress (messages ! 0), SetTimeout POLLING_INTERVAL,
                   GetVideosOperation job_running,
                   OnProgress (messages ! 1), SetTimeout POLLING_INTERVAL,
                   GetVideosOperation job_refreshed]\<rparr>)"
    by (rule two_polls_loop)
      (simp_all add: two_poll_env_def job_running_def job_refreshed_def job_done_def
        returning_def)
  have submit: "generateVideo_submit two_poll_env (returning f) p0 [] None None =
      Inr \<lparr>status_api = getVideosOperation two_poll_env, current = job_running, messageIndex = 0,
       sink_state = f initializing_message p0,
       events = [OnProgress initializing_message, GenerateVideos (videos_request [] None None)]\<rparr>"
    by (simp add: generateVideo_submit_def returning_def two_poll_env_def)
  show ?thesis
    unfolding generateVideo_def generateVideo_try_def submit
    by (simp add: loop)
      (simp add: generateVideo_retrieve_def downloadLink_def job_done_def returning_def
        videoUrl_def two_poll_env_def ascii_def)
qed

theorem generateVideo_two_polls_witness:
  "\<exists>tr p r. generateVideo two_poll_env (returning collect) [] (ascii ''a cat running'') None None
        = Some (tr, p, r)
     \<and> submissions tr = [videos_request (ascii ''a cat running'') None None]
     \<and> polls tr = [job_running, job_refreshed]
     \<and> retrievals tr = [ascii ''https://example.test/v?alt=media&key=KEY'']
     \<and> progress tr = [initializing_message, messages ! 0, messages ! 1, fetching_message]"
proof -
  have scenario:
    "generateVideos two_poll_env (videos_request (ascii ''a cat running'') None None)
       = Inr job_running"
    "\<not> is_done job_running"
    "getVideosOperation two_poll_env 0 job_running = Inr job_refreshed"
    "\<not> is_done job_refreshed"
    "getVideosOperation two_poll_env 1 job_refreshed = Inr job_done"
    "is_done job_done"
    "downloadLink job_done = Some (ascii ''https://example.test/v?alt=media'')"
    "ascii ''https://example.test/v?alt=media'' \<noteq> []"
    by (simp_all add: two_poll_env_def job_running_def job_refreshed_def job_done_def
        downloadLink_def ascii_def)
  have url: "videoUrl two_poll_env (ascii ''https://example.test/v?alt=media'')
      = ascii ''https://example.test/v?alt=media&key=KEY''"
    by (simp add: videoUrl_def two_poll_env_def ascii_def)
  from generateVideo_two_polls [OF scenario, of collect "[]"] show ?thesis
    unfolding url by blast
qed

lemma throw_on_fetching_run:
  "generateVideo two_poll_env throw_on_fetching () [] None None =
     Some ([OnProgress initializing_message, GenerateVideos (videos_request [] None None),
            OnProgress (messages ! 0), SetTimeout POLLING_INTERVAL,
            GetVideosOperation job_running,
            OnProgress (messages ! 1), SetTimeout POLLING_INTERVAL,
            GetVideosOperation job_refreshed,
            OnProgress fetching_message,
            ConsoleError (Error (ascii ''sink failed''))],
           (), Inl (Error (video_failed_prefix @ ascii ''sink failed'')))"
proof -
  have returns: "throw_on_fetching initializing_message () = Inr ()"
    "throw_on_fetching (messages ! 0) () = Inr ()"
    "throw_on_fetching (messages ! 1) () = Inr ()"
    "throw_on_fetching (messages ! Suc 0) () = Inr ()"
    by (simp_all add: throw_on_fetching_def initializing_message_def fetching_message_def
        messages_def)
  have throws: "throw_on_fetching fetching_message () = Inl (Error (ascii ''sink failed''))"
    by (simp add: throw_on_fetching_def)
  have loop: "js_while (generateVideo_poll throw_on_fetching)
      \<lparr>status_api = getVideosOperation two_poll_env, current = job_running, messageIndex = 0,
       sink_state = (),
       events = [OnProgress initializing_message, GenerateVideos (videos_request [] None None)]\<rparr>
    = Some (None,
      \<lparr>status_api = getVideosOperation two_poll_env \<circ> Suc \<circ> Suc, current = job_done,
       messageIndex = 2,
       sink_state = (),
       events = [OnProgress initializing_message, GenerateVideos (videos_request [] None None)]
                @ [OnProgress (messages ! 0), SetTimeout POLLING_INTERVAL,
                   GetVideosOperation job_running,
                   OnProgress (messages ! 1), SetTimeout POLLING_INTERVAL,
                   GetVideosOperation job_refreshed]\<rparr>)"
    by (rule two_polls_loop)
      (simp_all add: two_poll_env_def job_running_def job_refreshed_def job_done_def returns)
  have submit: "generateVideo_submit two_poll_env throw_on_fetching () [] None None =
      Inr \<lparr>status_api = getVideosOperation two_poll_env, current = job_running, messageIndex = 0,
       sink_state = (),
       events = [OnProgress initializing_message, GenerateVideos (videos_request [] None None)]\<rparr>"
    by (simp add: generateVideo_submit_def returns two_poll_env_def)
  show ?thesis
    unfolding generateVideo_def generateVideo_try_def submit
    by (simp add: loop)
      (simp add: generateVideo_retrieve_def downloadLink_def job_done_def throws
        video_catch_def ascii_def)
qed

text \<open>
  C4 as stated fails for a callback that throws. On a service with exactly the statuses
  of the claim, a callback that throws when it is given the fetching message ends the
  operation after the two polls and before \<open>fetch\<close>: there is no retrieval.
\<close>

theorem generateVideo_two_polls_counterexample:
  "generateVideos two_poll_env (videos_request [] None None) = Inr job_running
   \<and> \<not> is_done job_running
   \<and> getVideosOperation two_poll_env 0 job_running = Inr job_refreshed
   \<and> \<not> is_done job_refreshed
   \<and> getVideosOperation two_poll_env 1 job_refreshed = Inr job_done
   \<and> is_done job_done
   \<and> downloadLink job_done = Some (ascii ''https://example.test/v?alt=media'')
   \<and> map_option (polls \<circ> fst) (generateVideo two_poll_env throw_on_fetching () [] None None)
       = Some [job_running, job_refreshed]
   \<and> map_option (retrievals \<circ> fst) (generateVideo two_poll_env throw_on_fetching () [] None None)
       = Some []"
  by (simp add: throw_on_fetching_run)
    (simp add: two_poll_env_def job_running_def job_refreshed_def job_done_def downloadLink_def)

subsection \<open>The progress callback\<close>

lemma poll_same_view:
  assumes "same_view s t"
  shows "rel_sum same_view (\<lambda>(x, s') (y, t'). x = y \<and> same_view s' t')
           (generateVideo_poll (returning f) s) (generateVideo_poll (returning g) t)"
  using assms
  by (auto simp: same_view_def generateVideo_poll_def returning_def Let_def split: sum.splits)

lemma retrieve_same_view:
  assumes "same_view s t"
  shows "outcome (generateVideo_retrieve env (returning f) s)
       = outcome (generateVideo_retrieve env (returning g) t)"
  using assms
  by (auto simp: same_view_def generateVideo_retrieve_def returning_def outcome_def Let_def
      split: sum.splits option.splits)

lemma submit_same_view:
  "rel_sum (\<lambda>(tr, p, e) (tr', q, e'). tr = tr' \<and> e = e') same_view
     (generateVideo_submit env (returning f) p0 txt b m)
     (generateVideo_submit env (returning g) q0 txt b m)"
  by (auto simp: same_view_def generateVideo_submit_def returning_def Let_def split: sum.splits)

lemma try_same_view:
  "map_option outcome (generateVideo_try env (returning f) p0 txt b m)
     = map_option outcome (generateVideo_try env (returning g) q0 txt b m)"
proof (cases "generateVideo_submit env (returning f) p0 txt b m")
  case (Inl a)
  with submit_same_view [of env f p0 "txt" b m g q0] show ?thesis
    by (cases "generateVideo_submit env (returning g) q0 txt b m")
      (auto simp: generateVideo_try_def outcome_def)
next
  case (Inr s0)
  with submit_same_view [of env f p0 "txt" b m g q0]
  obtain t0 where t0: "generateVideo_submit env (returning g) q0 txt b m = Inr t0"
    and view: "same_view s0 t0"
    by (cases "generateVideo_submit env (returning g) q0 txt b m") auto
  have "rel_option (\<lambda>(x, s') (y, t'). x = y \<and> same_view s' t')
          (js_while (generateVideo_poll (returning f)) s0)
          (js_while (generateVideo_poll (returning g)) t0)"
    using poll_same_view view by (rule js_while_simulation)
  then show ?thesis
  proof (cases rule: option.rel_cases)
    case None
    with Inr t0 show ?thesis by (simp add: generateVideo_try_def)
  next
    case (Some x y)
    obtain e s where x: "x = (e, s)" by (cases x)
    obtain e' t where y: "y = (e', t)" by (cases y)
    from Some x y have same: "e' = e" "same_view s t" by auto
    show ?thesis
    proof (cases e)
      case None
      with Inr t0 Some x y same retrieve_same_view [OF same(2), of env f g] show ?thesis
        by (simp add: generateVideo_try_def)
    next
      case (Some err)
      with Inr t0 \<open>js_while (generateVideo_poll (returning f)) s0 = Some x\<close>
        \<open>js_while (generateVideo_poll (returning g)) t0 = Some y\<close> x y same
      show ?thesis
        by (simp add: generateVideo_try_def outcome_def same_view_def)
    qed
  qed
qed

lemma generateVideo_outcome:
  "map_option outcome (generateVideo env onProgress p0 txt b m) =
     map_option (\<lambda>(tr, r). case r of Inl e \<Rightarrow> (tr @ [ConsoleError e], Inl (video_catch e))
                                   | Inr url \<Rightarrow> (tr, Inr url))
       (map_option outcome (generateVideo_try env onProgress p0 txt b m))"
  by (auto simp: generateVideo_def outcome_def split: option.splits sum.splits)

lemma submit_fed:
  "case generateVideo_submit env (returning f) p0 txt b m of
     Inl (tr, p, e) \<Rightarrow> p = fold f (progress tr) p0
   | Inr s0 \<Rightarrow> fed f p0 s0"
  by (auto simp: generateVideo_submit_def returning_def fed_def Let_def split: sum.splits)

lemma poll_fed:
  assumes "js_while (generateVideo_poll (returning f)) s0 = Some (x, s)" and "fed f p0 s0"
  shows "fed f p0 s"
proof -
  have "case (x, s) of (x, s) \<Rightarrow> fed f p0 s"
    using assms
  proof (rule js_while_invariant [where I = "fed f p0"])
    fix s s' :: "'a poll_loop"
    assume "fed f p0 s" "generateVideo_poll (returning f) s = Inl s'"
    then show "fed f p0 s'"
      by (auto simp: generateVideo_poll_def returning_def fed_def Let_def progress_append
          split: if_splits sum.splits)
  next
    fix s :: "'a poll_loop" and r
    assume "fed f p0 s" "generateVideo_poll (returning f) s = Inr r"
    then show "case r of (x, s) \<Rightarrow> fed f p0 s"
      by (auto simp: generateVideo_poll_def returning_def fed_def Let_def progress_append
          split: if_splits sum.splits)
  qed
  then show ?thesis by simp
qed

lemma retrieve_fed:
  assumes "fed f p0 s" and "generateVideo_retrieve env (returning f) s = (tr, p, r)"
  shows "p = fold f (progress tr) p0"
  using assms
  by (auto simp: generateVideo_retrieve_def returning_def fed_def Let_def progress_append
      split: option.splits if_splits sum.splits)

lemma try_fed:
  assumes "generateVideo_try env (returning f) p0 txt b m = Some (tr, p, r)"
  shows "p = fold f (progress tr) p0"
proof (cases "generateVideo_submit env (returning f) p0 txt b m")
  case (Inl a)
  with assms submit_fed [of f p0 env "txt" b m] show ?thesis
    by (auto simp: generateVideo_try_def)
next
  case (Inr s0)
  with submit_fed [of f p0 env "txt" b m] have s0: "fed f p0 s0" by simp
  from assms Inr obtain x s where
    loop: "js_while (generateVideo_poll (returning f)) s0 = Some (x, s)"
    by (auto simp: generateVideo_try_def split: option.splits)
  from poll_fed [OF loop s0] have s: "fed f p0 s" .
  show ?thesis
  proof (cases x)
    case None
    with assms Inr loop have "generateVideo_retrieve env (returning f) s = (tr, p, r)"
      by (simp add: generateVideo_try_def)
    with s show ?thesis by (rule retrieve_fed)
  next
    case (Some e)
    with assms Inr loop s show ?thesis
      by (auto simp: generateVideo_try_def fed_def)
  qed
qed

text \<open>
  C8, amended. For any two progress callbacks that always return, whatever they do with
  the state of their callers, and the same remote service, \<open>generateVideo\<close> has the same
  outcome: the same events (submission, waits, polls, retrieval, and the messages given
  to the callback) and the same result or error, or no outcome for both. When the
  operation ends, the state of the caller is what the callback made of the progress
  messages of the trace, in order: every invocation precedes the one outcome.
\<close>

theorem generateVideo_callback_observes:
  "map_option outcome (generateVideo env (returning f) p0 txt b m)
     = map_option outcome (generateVideo env (returning g) q0 txt b m)
   \<and> (\<forall>tr p r. generateVideo env (returning f) p0 txt b m = Some (tr, p, r)
        \<longrightarrow> p = fold f (progress tr) p0)"
proof
  show "map_option outcome (generateVideo env (returning f) p0 txt b m)
     = map_option outcome (generateVideo env (returning g) q0 txt b m)"
    by (simp only: generateVideo_outcome try_same_view [of env f p0 "txt" b m g q0])
next
  show "\<forall>tr p r. generateVideo env (returning f) p0 txt b m = Some (tr, p, r)
        \<longrightarrow> p = fold f (progress tr) p0"
  proof (intro allI impI)
    fix tr p r
    assume run: "generateVideo env (returning f) p0 txt b m = Some (tr, p, r)"
    then obtain tr' r' where body: "generateVideo_try env (returning f) p0 txt b m = Some (tr', p, r')"
      and tr: "progress tr = progress tr'"
      by (auto simp: generateVideo_def progress_append split: option.splits sum.splits)
    from try_fed [OF body] tr show "p = fold f (progress tr) p0" by simp
  qed
qed

lemma throwing_sink_run:
  "generateVideo env throwing_sink () txt b m =
     Some ([OnProgress initializing_message, ConsoleError (Error (ascii ''sink failed''))], (),
           Inl (Error (video_failed_prefix @ ascii ''sink failed'')))"
  by (simp add: generateVideo_def generateVideo_try_def generateVideo_submit_def
      throwing_sink_def video_catch_def)

text \<open>
  C8 as stated fails for a callback that throws: it is called inside the \<open>try\<close> block,
  so its fault ends the operation before the job is even submitted, while with a
  callback that returns the same service runs the job to its end.
\<close>

theorem generateVideo_throwing_callback_counterexample:
  "map_option outcome (generateVideo two_poll_env throwing_sink () [] None None)
     \<noteq> map_option outcome (generateVideo two_poll_env (returning collect) [] [] None None)
   \<and> map_option (submissions \<circ> fst) (generateVideo two_poll_env throwing_sink () [] None None)
       = Some []
   \<and> map_option (submissions \<circ> fst)
         (generateVideo two_poll_env (returning collect) [] [] None None)
       = Some [videos_request [] None None]"
  by (simp add: throwing_sink_run two_poll_env_run outcome_def)

theorem generateVideo_callback_observes_witness:
  "map_option outcome (generateVideo two_poll_env (returning collect) [] [] None None)
     = map_option outcome (generateVideo two_poll_env (returning count_message) 0 [] None None)
   \<and> (\<exists>tr r. generateVideo two_poll_env (returning collect) [] [] None None
        = Some (tr, [initializing_message, messages ! 0, messages ! 1, fetching_message], r))"
  using generateVideo_callback_observes [of two_poll_env collect "[]" "[]" None None count_message 0]
  by (simp add: two_poll_env_run collect_def)

section \<open>Properties of handleEdit\<close>

text \<open>
  C10. Whenever \<open>handleEdit\<close> ends, on the success path and on the error path, the entry
  of every key other than the key of the selected file (its name followed by
  \<open>lastModified\<close>) is what it was. When a file is selected and the prompt check passes,
  the entry of that key is \<open>null\<close> when the service is called, and at the end it holds the
  result if the call succeeded and \<open>null\<close> otherwise.
\<close>

theorem handleEdit_frame:
  assumes "handleEdit fileToBase64 remote s = Some s'"
  shows "(\<forall>k. (\<forall>f. selectedOriginalFile (editState s) = Some f \<longrightarrow> k \<noteq> fileKey f)
            \<longrightarrow> editedImages (editState s') k = editedImages (editState s) k)
     \<and> (\<forall>f. selectedOriginalFile (editState s) = Some f
             \<and> (isOutpaint (editState s) \<or> trim (prompt (editState s)) \<noteq> [])
          \<longrightarrow> editedImages (editState (handleEdit_started s f)) (fileKey f) = Some None
            \<and> (\<forall>k. k \<noteq> fileKey f \<longrightarrow>
                  editedImages (editState (handleEdit_started s f)) k
                    = editedImages (editState s) k)
            \<and> editedImages (editState s') (fileKey f) =
                (case handleEdit_call fileToBase64 remote s f of
                   Some (Inr result) \<Rightarrow> Some (Some result)
                 | _ \<Rightarrow> Some None))"
  using assms
  by (auto simp: handleEdit_def handleEdit_started_def set_edited_def Let_def
      split: option.splits if_splits sum.splits)

lemma selected_holiday_photo: "selectedOriginalFile (editState editing_state) = Some holiday_photo"
  by (simp add: selectedOriginalFile_def editing_state_def)

lemma other_key: "fileKey other_photo \<noteq> fileKey holiday_photo"
  by (simp add: fileKey_def other_photo_def holiday_photo_def ascii_def)

lemma editing_state_call:
  "handleEdit_call read_as_base64 echo_api editing_state holiday_photo = Some (Inr (ascii ''add a hat''))"
  by (simp add: handleEdit_call_def read_as_base64_def editing_state_def editImage_echo)



lemma editing_state_ends: "\<exists>s'. handleEdit read_as_base64 echo_api editing_state = Some s'"
  by (simp add: handleEdit_def selected_holiday_photo editing_state_call Let_def)

lemma editing_state_prompt: "trim (prompt (editState editing_state)) \<noteq> []"
  by (simp add: editing_state_def trim_def ascii_def js_whitespace_def)

theorem handleEdit_frame_witness:
  "\<exists>s'. handleEdit read_as_base64 echo_api editing_state = Some s'
     \<and> editedImages (editState s') (fileKey other_photo) = Some (Some (ascii ''KEEP''))
     \<and> editedImages (editState (handleEdit_started editing_state holiday_photo))
          (fileKey holiday_photo) = Some None
     \<and> editedImages (editState s') (fileKey holiday_photo) = Some (Some (ascii ''add a hat''))"
proof -
  from editing_state_ends obtain s' where
    run: "handleEdit read_as_base64 echo_api editing_state = Some s'" ..
  note frame = handleEdit_frame [OF run]
  have "\<forall>f. selectedOriginalFile (editState editing_state) = Some f
          \<longrightarrow> fileKey other_photo \<noteq> fileKey f"
    by (simp add: selected_holiday_photo other_key)
  with frame have "editedImages (editState s') (fileKey other_photo)
      = editedImages (editState editing_state) (fileKey other_photo)"
    by blast
  then have other: "editedImages (editState s') (fileKey other_photo) = Some (Some (ascii ''KEEP''))"
    by (simp add: editing_state_def)
  from frame selected_holiday_photo editing_state_prompt
  have "editedImages (editState (handleEdit_started editing_state holiday_photo))
          (fileKey holiday_photo) = Some None
      \<and> editedImages (editState s') (fileKey holiday_photo) =
          (case handleEdit_call read_as_base64 echo_api editing_state holiday_photo of
             Some (Inr result) \<Rightarrow> Some (Some result)
           | _ \<Rightarrow> Some None)"
    by blast
  with run other show ?thesis
    by (simp add: editing_state_call)
qed

end
